theory Spec2Isabelle
  imports Main
begin

section \<open>The transaction feed of the account explorer (src/app/page.tsx)\<close>

text \<open>
  The component \<^verbatim>\<open>AccountTransactions\<close> keeps six \<^verbatim>\<open>useState\<close> cells and the
  \<^verbatim>\<open>address\<close> property. Every handler of the component is embedded as a function on the
  record of these cells. A handler that awaits a network call is split at the
  \<^verbatim>\<open>await\<close>: the part before it (\<open>_begin\<close>) returns the new cells and the request it
  issues, the part after it (\<open>_settle\<close>) takes the settled promise.
  A handler is a closure of the render that created it: what it reads of the cells
  (lines 123, 128, 158, 161, 184, 202) are the constants of that render, the argument
  \<open>r\<close>, while its setters act on the current cells, the argument \<open>s\<close>. The two are the
  same feed once the component has rendered again.
  Version numbers are integers (\<^verbatim>\<open>parseInt\<close> of a decimal version is that integer).
\<close>

subsection \<open>Records of the two backends\<close>

text \<open>The selection of the GraphQL query, lines 28-32.\<close>

record user_transaction_obj =
  sender :: "string option"

record account_transaction =
  transaction_version :: int
  typename :: string
  user_transaction :: "user_transaction_obj option"

text \<open>The fields of a REST transaction that the component reads, lines 133-135 and 141.\<close>

record rest_transaction =
  version :: int
  tx_type :: string
  tx_sender :: "string option"

subsection \<open>Network calls and their outcomes\<close>

datatype request =
    GraphQLRequest string nat nat        \<comment> \<open>address, limit, offset\<close>
  | RestRequest string "int option"      \<comment> \<open>address, \<^verbatim>\<open>start\<close> parameter when present\<close>

datatype exn = TypeError | SyntaxError | ResponseStatusError nat

datatype json_body =
    InvalidJson                          \<comment> \<open>\<^verbatim>\<open>response.json()\<close> rejects\<close>
  | NotAnArray
  | JsonArray "rest_transaction list"

datatype fetch_outcome =
    FetchRejected                        \<comment> \<open>\<^verbatim>\<open>fetch\<close> rejects: the transport failed\<close>
  | Response nat json_body               \<comment> \<open>HTTP status and body\<close>

datatype fetchMore_outcome =
    FetchMoreRejected
  | FetchMoreResolved "account_transaction list option"
      \<comment> \<open>\<^verbatim>\<open>result.data?.account_transactions\<close>, \<open>None\<close> when undefined\<close>

definition ok :: "nat \<Rightarrow> bool" where
  "ok status = (200 \<le> status \<and> status \<le> 299)"

definition pageSize :: nat where
  "pageSize = 100"

subsection \<open>getAccountTransactionsRest, lines 71-94\<close>

definition rest_request :: "string \<Rightarrow> int option \<Rightarrow> request" where
  "rest_request address start = RestRequest address start"

text \<open>The body of the \<^verbatim>\<open>try\<close> block, lines 83-89.\<close>

fun rest_try_body :: "fetch_outcome \<Rightarrow> exn + rest_transaction list" where
  "rest_try_body FetchRejected = Inl TypeError"
| "rest_try_body (Response status body) =
     (if \<not> ok status then Inl (ResponseStatusError status)
      else case body of
             InvalidJson \<Rightarrow> Inl SyntaxError
           | NotAnArray \<Rightarrow> Inr []
           | JsonArray transactions \<Rightarrow> Inr transactions)"

text \<open>The whole function: the \<^verbatim>\<open>catch\<close> block returns the empty array.\<close>

definition getAccountTransactionsRest ::
  "(request \<Rightarrow> fetch_outcome) \<Rightarrow> string \<Rightarrow> int option \<Rightarrow> exn + rest_transaction list" where
  "getAccountTransactionsRest fetch address start =
     (case rest_try_body (fetch (rest_request address start)) of
        Inl error \<Rightarrow> Inr []
      | Inr transactions \<Rightarrow> Inr transactions)"

subsection \<open>The state of AccountTransactions, lines 100-107\<close>

record feed =
  address :: string
  allTransactions :: "account_transaction list"
  currentPage :: nat
  isLoadingMore :: bool
  hasMore :: bool
  useRestAPI :: bool
  restStartVersion :: "int option"

definition initial :: "string \<Rightarrow> feed" where
  "initial a =
     \<lparr>address = a, allTransactions = [], currentPage = 0, isLoadingMore = False,
      hasMore = True, useRestAPI = False, restStartVersion = None\<rparr>"

text \<open>\<^verbatim>\<open>Math.min(...xs)\<close>; of no argument it is \<^verbatim>\<open>Infinity\<close>, here \<open>None\<close>.\<close>

fun Math_min :: "int list \<Rightarrow> int option" where
  "Math_min [] = None"
| "Math_min (v # vs) = Some (fold min vs v)"

text \<open>The \<^verbatim>\<open>onCompleted\<close> callback of the first query, lines 114-119.\<close>

definition onCompleted :: "account_transaction list option \<Rightarrow> feed \<Rightarrow> feed" where
  "onCompleted data s =
     (case data of
        None \<Rightarrow> s
      | Some account_transactions \<Rightarrow>
          s\<lparr>allTransactions := account_transactions,
            hasMore := (length account_transactions = pageSize)\<rparr>)"

text \<open>The mapping of line 132-136.\<close>

definition formatTransaction :: "rest_transaction \<Rightarrow> account_transaction" where
  "formatTransaction tx =
     \<lparr>transaction_version = version tx,
      typename = (if tx_type tx = ''user_transaction'' then ''UserTransaction''
                  else ''SystemTransaction''),
      user_transaction = (if tx_type tx = ''user_transaction''
                          then Some \<lparr>sender = tx_sender tx\<rparr> else None)\<rparr>"

subsection \<open>loadMoreWithRest, lines 122-155\<close>

definition loadMoreWithRest_begin :: "feed \<Rightarrow> feed \<Rightarrow> feed \<times> request option" where
  "loadMoreWithRest_begin r s =
     (if isLoadingMore r \<or> \<not> hasMore r then (s, None)
      else (s\<lparr>isLoadingMore := True\<rparr>,
            Some (rest_request (address r) (restStartVersion r))))"

definition loadMoreWithRest_settle :: "exn + rest_transaction list \<Rightarrow> feed \<Rightarrow> feed" where
  "loadMoreWithRest_settle awaited s =
     (case awaited of
        Inl error \<Rightarrow> s\<lparr>hasMore := False, isLoadingMore := False\<rparr>
      | Inr restTransactions \<Rightarrow>
          if length restTransactions > 0 then
            s\<lparr>allTransactions := allTransactions s @ map formatTransaction restTransactions,
              restStartVersion :=
                map_option (\<lambda>oldestVersion. oldestVersion - 1)
                  (Math_min (map version restTransactions)),
              hasMore := (length restTransactions \<ge> 1000),
              isLoadingMore := False\<rparr>
          else s\<lparr>hasMore := False, isLoadingMore := False\<rparr>)"

text \<open>
  The handler of the render that shows \<open>s\<close>, called on \<open>s\<close>, with its fetch settling
  before any other event.
\<close>

definition loadMoreWithRest :: "(request \<Rightarrow> fetch_outcome) \<Rightarrow> feed \<Rightarrow> feed" where
  "loadMoreWithRest fetch s =
     (if isLoadingMore s \<or> \<not> hasMore s then s
      else loadMoreWithRest_settle
             (getAccountTransactionsRest fetch (address s) (restStartVersion s))
             (fst (loadMoreWithRest_begin s s)))"

subsection \<open>loadMoreWithGraphQL, lines 157-199\<close>

definition loadMoreWithGraphQL_begin :: "feed \<Rightarrow> feed \<Rightarrow> feed \<times> request option" where
  "loadMoreWithGraphQL_begin r s =
     (if isLoadingMore r \<or> \<not> hasMore r then (s, None)
      else (s\<lparr>isLoadingMore := True\<rparr>,
            Some (GraphQLRequest (address r) pageSize ((currentPage r + 1) * pageSize))))"

text \<open>
  After the \<^verbatim>\<open>await\<close>. \<open>held\<close> is the \<^verbatim>\<open>allTransactions\<close> of the closure, the list of the
  render that created the handler; the setters with an updater function read the
  current cells.
\<close>

definition loadMoreWithGraphQL_settle ::
  "account_transaction list \<Rightarrow> fetchMore_outcome \<Rightarrow> feed \<Rightarrow> feed" where
  "loadMoreWithGraphQL_settle held result s =
     (case result of
        FetchMoreRejected \<Rightarrow>
          s\<lparr>useRestAPI := True, hasMore := True, isLoadingMore := False\<rparr>
      | FetchMoreResolved data \<Rightarrow>
          (let newTransactions = (case data of None \<Rightarrow> [] | Some txs \<Rightarrow> txs) in
           if length newTransactions > 0 then
             s\<lparr>allTransactions := allTransactions s @ newTransactions,
               currentPage := currentPage s + 1,
               hasMore := (length newTransactions = pageSize),
               isLoadingMore := False\<rparr>
           else
             s\<lparr>useRestAPI := True,
               restStartVersion :=
                 (if length held > 0
                  then map_option (\<lambda>oldestVersion. oldestVersion - 1)
                         (Math_min (map transaction_version held))
                  else restStartVersion s),
               hasMore := True,
               isLoadingMore := False\<rparr>))"

text \<open>
  The handler of the render that shows \<open>s\<close>, called on \<open>s\<close>, with its fetch settling
  before any other event.
\<close>

definition loadMoreWithGraphQL :: "(request \<Rightarrow> fetchMore_outcome) \<Rightarrow> feed \<Rightarrow> feed" where
  "loadMoreWithGraphQL fetchMore s =
     (if isLoadingMore s \<or> \<not> hasMore s then s
      else loadMoreWithGraphQL_settle (allTransactions s)
             (fetchMore (GraphQLRequest (address s) pageSize ((currentPage s + 1) * pageSize)))
             (fst (loadMoreWithGraphQL_begin s s)))"

subsection \<open>loadMoreTransactions, lines 201-207, and the reset effect, lines 209-216\<close>

definition loadMoreTransactions_begin :: "feed \<Rightarrow> feed \<Rightarrow> feed \<times> request option" where
  "loadMoreTransactions_begin r s =
     (if useRestAPI r then loadMoreWithRest_begin r s else loadMoreWithGraphQL_begin r s)"

definition loadMoreTransactions ::
  "(request \<Rightarrow> fetchMore_outcome) \<Rightarrow> (request \<Rightarrow> fetch_outcome) \<Rightarrow> feed \<Rightarrow> feed" where
  "loadMoreTransactions fetchMore fetch s =
     (if useRestAPI s then loadMoreWithRest fetch s else loadMoreWithGraphQL fetchMore s)"

definition reset :: "feed \<Rightarrow> feed" where
  "reset s =
     s\<lparr>allTransactions := [], currentPage := 0, hasMore := True, useRestAPI := False,
       restStartVersion := None\<rparr>"

subsection \<open>The events of the component\<close>

text \<open>
  The component between two events: the cells, and the feed that the last render read,
  whose handlers the buttons carry. A render copies the cells. A change of the address
  renders the component with the new address and then runs the reset effect.
\<close>

record component =
  rendered :: feed
  cells :: feed

definition shown :: "feed \<Rightarrow> component" where
  "shown s = \<lparr>rendered = s, cells = s\<rparr>"

datatype event =
    Rendered                                                   \<comment> \<open>the component renders again\<close>
  | LoadMoreClicked                                            \<comment> \<open>line 276\<close>
  | FetchMoreSettled "account_transaction list" fetchMore_outcome
      \<comment> \<open>the awaited \<^verbatim>\<open>fetchMore\<close> of line 164 settles; the list is the closure's\<close>
  | RestSettled "exn + rest_transaction list"                  \<comment> \<open>the await of line 128 settles\<close>
  | QueryCompleted "account_transaction list option"           \<comment> \<open>line 114\<close>
  | TryRestClicked                                             \<comment> \<open>line 244\<close>
  | AddressChanged string                                      \<comment> \<open>the effect of line 210\<close>

fun step :: "event \<Rightarrow> component \<Rightarrow> component \<times> request option" where
  "step Rendered w = (w\<lparr>rendered := cells w\<rparr>, None)"
| "step LoadMoreClicked w =
     (case loadMoreTransactions_begin (rendered w) (cells w) of
        (s', q) \<Rightarrow> (w\<lparr>cells := s'\<rparr>, q))"
| "step (FetchMoreSettled held result) w =
     (w\<lparr>cells := loadMoreWithGraphQL_settle held result (cells w)\<rparr>, None)"
| "step (RestSettled awaited) w = (w\<lparr>cells := loadMoreWithRest_settle awaited (cells w)\<rparr>, None)"
| "step (QueryCompleted data) w = (w\<lparr>cells := onCompleted data (cells w)\<rparr>, None)"
| "step TryRestClicked w = (w\<lparr>cells := (cells w)\<lparr>useRestAPI := True\<rparr>\<rparr>, None)"
| "step (AddressChanged a) w =
     (\<lparr>rendered = (cells w)\<lparr>address := a\<rparr>, cells = reset ((cells w)\<lparr>address := a\<rparr>)\<rparr>, None)"

text \<open>A run of events: the last state and the requests issued, in order.\<close>

fun run :: "event list \<Rightarrow> component \<Rightarrow> component \<times> request list" where
  "run [] w = (w, [])"
| "run (e # es) w =
     (case step e w of
        (w', r) \<Rightarrow> (case run es w' of (w'', rs) \<Rightarrow> (w'', (case r of None \<Rightarrow> [] | Some q \<Rightarrow> [q]) @ rs)))"

fun is_AddressChanged :: "event \<Rightarrow> bool" where
  "is_AddressChanged (AddressChanged a) = True"
| "is_AddressChanged e = False"

fun is_GraphQLRequest :: "request \<Rightarrow> bool" where
  "is_GraphQLRequest (GraphQLRequest a l off) = True"
| "is_GraphQLRequest (RestRequest a start) = False"

text \<open>
  Successive \<^verbatim>\<open>loadMoreWithGraphQL\<close> calls, each resolving with the next page before the
  next call; the list of the feeds passed through.
\<close>

fun indexed_loads :: "account_transaction list list \<Rightarrow> feed \<Rightarrow> feed list" where
  "indexed_loads [] s = [s]"
| "indexed_loads (page # pages) s =
     s # indexed_loads pages (loadMoreWithGraphQL (\<lambda>q. FetchMoreResolved (Some page)) s)"

text \<open>
  Successive \<^verbatim>\<open>loadMoreTransactions\<close> calls, each with the network of its moment and
  settled before the next call.
\<close>

fun loadMoreMany ::
  "((request \<Rightarrow> fetchMore_outcome) \<times> (request \<Rightarrow> fetch_outcome)) list \<Rightarrow> feed \<Rightarrow> feed" where
  "loadMoreMany [] s = s"
| "loadMoreMany ((fetchMore, fetch) # nets) s =
     loadMoreMany nets (loadMoreTransactions fetchMore fetch s)"

subsection \<open>Sample data\<close>

definition indexed_tx :: "int \<Rightarrow> account_transaction" where
  "indexed_tx v = \<lparr>transaction_version = v, typename = ''UserTransaction'',
                   user_transaction = Some \<lparr>sender = Some ''0xa''\<rparr>\<rparr>"

definition node_tx :: "int \<Rightarrow> rest_transaction" where
  "node_tx v = \<lparr>version = v, tx_type = ''user_transaction'', tx_sender = Some ''0xa''\<rparr>"

text \<open>
  A feed as the first query leaves it: a full page of 100 records, versions 300 down to
  201. Then a full second page, versions 200 down to 101, a shorter page, versions 100
  down to 64, a page of 101 records, versions 200 down to 100, and the feed after a
  rejected \<^verbatim>\<open>fetchMore\<close>.
\<close>

definition first_page :: "account_transaction list" where
  "first_page = map indexed_tx (rev [201..300])"

definition second_page :: "account_transaction list" where
  "second_page = map indexed_tx (rev [101..200])"

definition short_page :: "account_transaction list" where
  "short_page = map indexed_tx (rev [64..100])"

definition after_first_page :: feed where
  "after_first_page = onCompleted (Some first_page) (initial ''0xa'')"

definition failed_over :: feed where
  "failed_over = loadMoreWithGraphQL (\<lambda>q. FetchMoreRejected) after_first_page"

definition long_page :: "account_transaction list" where
  "long_page = map indexed_tx (rev [100..200])"

definition twelve :: "rest_transaction list" where
  "twelve = map node_tx (rev [89..100])"

definition block_tx :: rest_transaction where
  "block_tx = \<lparr>version = 8, tx_type = ''block_metadata_transaction'', tx_sender = None\<rparr>"

section \<open>Auxiliary facts\<close>

lemma Math_min_Min: "xs \<noteq> [] \<Longrightarrow> Math_min xs = Some (Min (set xs))"
proof (cases xs)
  case Nil
  assume "xs \<noteq> []"
  with Nil show ?thesis by simp
next
  case (Cons v vs)
  have "fold min vs v = Min (set (v # vs))" by (rule Min.set_eq_fold [symmetric])
  with Cons show ?thesis by simp
qed

lemma begin_blocked:
  "isLoadingMore r \<or> \<not> hasMore r \<Longrightarrow> loadMoreTransactions_begin r s = (s, None)"
  by (auto simp: loadMoreTransactions_begin_def loadMoreWithRest_begin_def
      loadMoreWithGraphQL_begin_def)

lemma begin_open:
  "\<not> isLoadingMore r \<Longrightarrow> hasMore r \<Longrightarrow>
   loadMoreTransactions_begin r s =
     (s\<lparr>isLoadingMore := True\<rparr>,
      Some (if useRestAPI r then RestRequest (address r) (restStartVersion r)
            else GraphQLRequest (address r) pageSize ((currentPage r + 1) * pageSize)))"
  by (auto simp: loadMoreTransactions_begin_def loadMoreWithRest_begin_def
      loadMoreWithGraphQL_begin_def rest_request_def)

lemma loadMore_blocked:
  "isLoadingMore s \<or> \<not> hasMore s \<Longrightarrow> loadMoreTransactions fetchMore fetch s = s"
  by (auto simp: loadMoreTransactions_def loadMoreWithRest_def loadMoreWithGraphQL_def)

lemma loadMoreMany_blocked:
  "isLoadingMore s \<or> \<not> hasMore s \<Longrightarrow> loadMoreMany nets s = s"
  by (induction nets) (auto simp: loadMore_blocked)

lemma run_blocked:
  "isLoadingMore s \<or> \<not> hasMore s \<Longrightarrow> \<forall>e\<in>set es. e = LoadMoreClicked \<or> e = Rendered \<Longrightarrow>
   run es (shown s) = (shown s, [])"
proof (induction es)
  case Nil
  then show ?case by simp
next
  case (Cons e es)
  from Cons.prems(1) have "step LoadMoreClicked (shown s) = (shown s, None)"
    by (simp add: shown_def begin_blocked)
  moreover have "step Rendered (shown s) = (shown s, None)" by (simp add: shown_def)
  moreover from Cons.prems(2) have "e = LoadMoreClicked \<or> e = Rendered" by simp
  ultimately have "step e (shown s) = (shown s, None)" by auto
  moreover from Cons have "run es (shown s) = (shown s, [])" by simp
  ultimately show ?case by simp
qed

lemma step_keeps_cells_rest:
  "useRestAPI (cells w) \<Longrightarrow> \<not> is_AddressChanged e \<Longrightarrow> useRestAPI (cells (fst (step e w)))"
  by (cases e)
    (auto simp: loadMoreTransactions_begin_def loadMoreWithRest_begin_def
      loadMoreWithGraphQL_begin_def
      loadMoreWithRest_settle_def loadMoreWithGraphQL_settle_def onCompleted_def
      rest_request_def Let_def
      split: sum.splits fetchMore_outcome.splits option.splits if_splits prod.splits)

lemma run_keeps_cells_rest:
  "useRestAPI (cells w) \<Longrightarrow> \<forall>e\<in>set es. \<not> is_AddressChanged e \<Longrightarrow>
   useRestAPI (cells (fst (run es w)))"
proof (induction es arbitrary: w)
  case Nil
  then show ?case by simp
next
  case (Cons e es)
  obtain w' r where st: "step e w = (w', r)" by (cases "step e w")
  from Cons.prems have ne: "\<not> is_AddressChanged e" by simp
  from step_keeps_cells_rest [OF Cons.prems(1) ne] st have w': "useRestAPI (cells w')" by simp
  from Cons.prems have "\<forall>e\<in>set es. \<not> is_AddressChanged e" by simp
  from Cons.IH [OF w' this] have ih: "useRestAPI (cells (fst (run es w')))" .
  obtain w'' rs where rn: "run es w' = (w'', rs)" by (cases "run es w'")
  with st ih show ?case by simp
qed

lemma step_keeps_rest:
  "useRestAPI (cells w) \<Longrightarrow> useRestAPI (rendered w) \<Longrightarrow> \<not> is_AddressChanged e \<Longrightarrow>
   useRestAPI (cells (fst (step e w))) \<and> useRestAPI (rendered (fst (step e w))) \<and>
   (\<forall>q. snd (step e w) = Some q \<longrightarrow> \<not> is_GraphQLRequest q)"
  by (cases e)
    (auto simp: loadMoreTransactions_begin_def loadMoreWithRest_begin_def
      loadMoreWithRest_settle_def loadMoreWithGraphQL_settle_def onCompleted_def
      rest_request_def Let_def
      split: sum.splits fetchMore_outcome.splits option.splits if_splits prod.splits)

lemma run_keeps_rest:
  "useRestAPI (cells w) \<Longrightarrow> useRestAPI (rendered w) \<Longrightarrow> \<forall>e\<in>set es. \<not> is_AddressChanged e \<Longrightarrow>
   useRestAPI (cells (fst (run es w))) \<and> (\<forall>q\<in>set (snd (run es w)). \<not> is_GraphQLRequest q)"
proof (induction es arbitrary: w)
  case Nil
  then show ?case by simp
next
  case (Cons e es)
  obtain w' r where st: "step e w = (w', r)" by (cases "step e w")
  from Cons.prems have ne: "\<not> is_AddressChanged e" by simp
  from step_keeps_rest [OF Cons.prems(1,2) ne] st
  have w': "useRestAPI (cells w')" "useRestAPI (rendered w')"
    and r: "\<forall>q. r = Some q \<longrightarrow> \<not> is_GraphQLRequest q" by simp_all
  from Cons.prems have "\<forall>e\<in>set es. \<not> is_AddressChanged e" by simp
  from Cons.IH [OF w' this]
  have ih: "useRestAPI (cells (fst (run es w')))"
    "\<forall>q\<in>set (snd (run es w')). \<not> is_GraphQLRequest q"
    by simp_all
  obtain w'' rs where rn: "run es w' = (w'', rs)" by (cases "run es w'")
  with st ih r show ?case by (auto split: option.splits)
qed

lemma loadMoreTransactions_keeps_rest:
  "useRestAPI s \<Longrightarrow> useRestAPI (loadMoreTransactions fetchMore fetch s)"
  by (auto simp: loadMoreTransactions_def loadMoreWithRest_def loadMoreWithRest_settle_def
      loadMoreWithRest_begin_def split: sum.splits)

lemma gql_resolved_append:
  "\<exists>added. allTransactions (loadMoreWithGraphQL (\<lambda>q. FetchMoreResolved (Some page)) s) =
             allTransactions s @ added \<and>
           (added = [] \<or> added = page) \<and>
           (\<not> isLoadingMore s \<and> hasMore s \<longrightarrow> added = page)"
  by (cases "page = []")
    (auto simp: loadMoreWithGraphQL_def loadMoreWithGraphQL_settle_def
      loadMoreWithGraphQL_begin_def Let_def)

lemma indexed_loads_first: "indexed_loads pages s ! 0 = s"
  by (cases pages) simp_all

section \<open>The claims\<close>

text \<open>
  Claim C1, as the code has it. A \<^verbatim>\<open>fetchMore\<close> that resolves with no record (an empty
  page, or no \<^verbatim>\<open>account_transactions\<close> at all) switches the feed to the Rest backend: the
  next load more issues the REST request of the address, with \<^verbatim>\<open>start\<close> the least held
  version minus 1 when records are held, and the cursor as it was when none is held.
  A page that is not empty and shorter than \<^verbatim>\<open>pageSize\<close> sets \<^verbatim>\<open>hasMore\<close> to false and
  leaves the backend alone, so the next load more returns at its guard and issues no
  request; so does a short page of the first query.
\<close>

theorem empty_indexed_page_switches_to_rest:
  assumes "\<not> isLoadingMore s" and "hasMore s"
  shows "(data = None \<or> data = Some [] \<longrightarrow>
            useRestAPI (loadMoreWithGraphQL (\<lambda>q. FetchMoreResolved data) s) \<and>
            snd (loadMoreTransactions_begin
                   (loadMoreWithGraphQL (\<lambda>q. FetchMoreResolved data) s)
                   (loadMoreWithGraphQL (\<lambda>q. FetchMoreResolved data) s)) =
              Some (RestRequest (address s)
                     (if allTransactions s = [] then restStartVersion s
                      else Some (Min (set (map transaction_version (allTransactions s))) - 1)))) \<and>
         (page \<noteq> [] \<and> length page < pageSize \<longrightarrow>
            \<not> hasMore (loadMoreWithGraphQL (\<lambda>q. FetchMoreResolved (Some page)) s) \<and>
            useRestAPI (loadMoreWithGraphQL (\<lambda>q. FetchMoreResolved (Some page)) s) = useRestAPI s \<and>
            loadMoreTransactions_begin
                (loadMoreWithGraphQL (\<lambda>q. FetchMoreResolved (Some page)) s)
                (loadMoreWithGraphQL (\<lambda>q. FetchMoreResolved (Some page)) s) =
              (loadMoreWithGraphQL (\<lambda>q. FetchMoreResolved (Some page)) s, None)) \<and>
         (length page < pageSize \<longrightarrow>
            useRestAPI (onCompleted (Some page) s) = useRestAPI s \<and>
            loadMoreTransactions_begin (onCompleted (Some page) s) (onCompleted (Some page) s) =
              (onCompleted (Some page) s, None))"
proof (intro conjI impI)
  let ?L = "\<lambda>d. loadMoreWithGraphQL (\<lambda>q. FetchMoreResolved d) s"
  let ?cursor = "if allTransactions s = [] then restStartVersion s
                 else Some (Min (set (map transaction_version (allTransactions s))) - 1)"
  assume d: "data = None \<or> data = Some []"
  have m: "allTransactions s \<noteq> [] \<Longrightarrow>
      Math_min (map transaction_version (allTransactions s)) =
        Some (Min (set (map transaction_version (allTransactions s))))"
    by (rule Math_min_Min) simp
  from d assms m have eq: "?L data =
      s\<lparr>useRestAPI := True, restStartVersion := ?cursor, hasMore := True, isLoadingMore := False\<rparr>"
    by (auto simp: loadMoreWithGraphQL_def loadMoreWithGraphQL_settle_def
        loadMoreWithGraphQL_begin_def)
  show "useRestAPI (?L data)" unfolding eq by simp
  show "snd (loadMoreTransactions_begin (?L data) (?L data)) =
      Some (RestRequest (address s) ?cursor)"
    unfolding eq by (simp add: begin_open)
next
  let ?s' = "loadMoreWithGraphQL (\<lambda>q. FetchMoreResolved (Some page)) s"
  assume p: "page \<noteq> [] \<and> length page < pageSize"
  with assms have eq: "?s' = s\<lparr>allTransactions := allTransactions s @ page,
      currentPage := currentPage s + 1, hasMore := False, isLoadingMore := False\<rparr>"
    by (simp add: loadMoreWithGraphQL_def loadMoreWithGraphQL_settle_def
        loadMoreWithGraphQL_begin_def)
  show h: "\<not> hasMore ?s'" unfolding eq by simp
  show "useRestAPI ?s' = useRestAPI s" unfolding eq by simp
  from h show "loadMoreTransactions_begin ?s' ?s' = (?s', None)" by (simp add: begin_blocked)
next
  assume p: "length page < pageSize"
  then have h: "\<not> hasMore (onCompleted (Some page) s)" by (simp add: onCompleted_def)
  show "useRestAPI (onCompleted (Some page) s) = useRestAPI s" by (simp add: onCompleted_def)
  from h show "loadMoreTransactions_begin (onCompleted (Some page) s) (onCompleted (Some page) s) =
      (onCompleted (Some page) s, None)"
    by (simp add: begin_blocked)
qed

theorem empty_indexed_page_switches_to_rest_witness:
  "\<not> isLoadingMore after_first_page \<and> hasMore after_first_page \<and>
   snd (loadMoreTransactions_begin
          (loadMoreWithGraphQL (\<lambda>q. FetchMoreResolved (Some [])) after_first_page)
          (loadMoreWithGraphQL (\<lambda>q. FetchMoreResolved (Some [])) after_first_page)) =
     Some (RestRequest ''0xa'' (Some 200)) \<and>
   \<not> hasMore (loadMoreWithGraphQL (\<lambda>q. FetchMoreResolved (Some short_page)) after_first_page)"
proof -
  have h1: "\<not> isLoadingMore after_first_page" and h2: "hasMore after_first_page"
    by code_simp+
  have p: "short_page \<noteq> [] \<and> length short_page < pageSize" by code_simp
  have v: "snd (loadMoreTransactions_begin
          (loadMoreWithGraphQL (\<lambda>q. FetchMoreResolved (Some [])) after_first_page)
          (loadMoreWithGraphQL (\<lambda>q. FetchMoreResolved (Some [])) after_first_page)) =
     Some (RestRequest ''0xa'' (Some 200))" by code_simp
  show ?thesis
    using h1 h2 p v
      empty_indexed_page_switches_to_rest [OF h1 h2, of "Some []" short_page]
    by blast
qed

text \<open>
  Claim C1, as the spec words it, fails on a page of 37 records: after the first page
  (versions 300 to 201) and a second page of 37 records (versions 100 to 64) the backend
  is still the indexed one and the next load more issues no request at all, where the
  claim expects a REST request with \<^verbatim>\<open>start\<close> 63.
\<close>

theorem short_indexed_page_counterexample:
  "length short_page < pageSize \<and>
   \<not> useRestAPI (loadMoreWithGraphQL (\<lambda>q. FetchMoreResolved (Some short_page)) after_first_page) \<and>
   snd (loadMoreTransactions_begin
          (loadMoreWithGraphQL (\<lambda>q. FetchMoreResolved (Some short_page)) after_first_page)
          (loadMoreWithGraphQL (\<lambda>q. FetchMoreResolved (Some short_page)) after_first_page)) = None \<and>
   snd (loadMoreTransactions_begin
          (loadMoreWithGraphQL (\<lambda>q. FetchMoreResolved (Some short_page)) after_first_page)
          (loadMoreWithGraphQL (\<lambda>q. FetchMoreResolved (Some short_page)) after_first_page))
     \<noteq> Some (RestRequest ''0xa'' (Some 63))"
  by code_simp




text \<open>
  Claim C3 at a rejected \<^verbatim>\<open>fetchMore\<close>. The feed holds the first page (versions 300 to
  201). The \<^verbatim>\<open>catch\<close> block switches to the Rest backend and leaves \<^verbatim>\<open>restStartVersion\<close>
  undefined, so the next load more asks the node for the newest transactions and the
  held page is appended a second time. The branch of the empty page, from the same
  feed, sets the cursor to 200.
\<close>

theorem indexed_failure_cursor_unset:
  "useRestAPI failed_over \<and> restStartVersion failed_over = None \<and>
   length (allTransactions failed_over) = 100 \<and>
   snd (loadMoreTransactions_begin failed_over failed_over) = Some (RestRequest ''0xa'' None) \<and>
   snd (loadMoreTransactions_begin
         (loadMoreWithGraphQL (\<lambda>q. FetchMoreResolved (Some [])) after_first_page)
         (loadMoreWithGraphQL (\<lambda>q. FetchMoreResolved (Some [])) after_first_page))
     = Some (RestRequest ''0xa'' (Some 200)) \<and>
   allTransactions
     (loadMoreWithRest (\<lambda>q. Response 200 (JsonArray (map node_tx (rev [201..300])))) failed_over)
     = first_page @ first_page"
  by code_simp

text \<open>
  Claim C4, as the code has it. Along successive \<^verbatim>\<open>loadMoreWithGraphQL\<close> calls that each
  resolve with a page, every call leaves the held records in place and appends after
  them: nothing, or the whole page as it arrived; when the guard is open the call asks
  for \<^verbatim>\<open>pageSize\<close> records and appends the whole page. So the list never shrinks and grows
  per call by at most the length of the page that arrived, which is at most \<^verbatim>\<open>pageSize\<close>
  when the indexer returns no more than it was asked for.
\<close>

theorem indexed_loads_append:
  assumes "i < length pages"
  shows "\<exists>added.
           allTransactions (indexed_loads pages s ! Suc i) =
             allTransactions (indexed_loads pages s ! i) @ added \<and>
           (added = [] \<or> added = pages ! i) \<and>
           (\<not> isLoadingMore (indexed_loads pages s ! i) \<and> hasMore (indexed_loads pages s ! i)
              \<longrightarrow> added = pages ! i \<and>
                  (\<exists>a off. snd (loadMoreWithGraphQL_begin (indexed_loads pages s ! i)
                                  (indexed_loads pages s ! i)) =
                             Some (GraphQLRequest a pageSize off))) \<and>
           length (allTransactions (indexed_loads pages s ! i)) \<le>
             length (allTransactions (indexed_loads pages s ! Suc i)) \<and>
           length (allTransactions (indexed_loads pages s ! Suc i)) \<le>
             length (allTransactions (indexed_loads pages s ! i)) + length (pages ! i) \<and>
           (length (pages ! i) \<le> pageSize \<longrightarrow>
              length (allTransactions (indexed_loads pages s ! Suc i)) \<le>
                length (allTransactions (indexed_loads pages s ! i)) + pageSize)"
  using assms
proof (induction pages arbitrary: s i)
  case Nil
  then show ?case by simp
next
  case (Cons page pages)
  show ?case
  proof (cases i)
    case 0
    from gql_resolved_append [of page s] obtain added where
      a: "allTransactions (loadMoreWithGraphQL (\<lambda>q. FetchMoreResolved (Some page)) s) =
             allTransactions s @ added"
      and b: "added = [] \<or> added = page"
      and c: "\<not> isLoadingMore s \<and> hasMore s \<longrightarrow> added = page" by blast
    from b have l: "length added \<le> length page" by auto
    have r: "\<not> isLoadingMore s \<and> hasMore s \<longrightarrow>
        (\<exists>a off. snd (loadMoreWithGraphQL_begin s s) = Some (GraphQLRequest a pageSize off))"
      by (simp add: loadMoreWithGraphQL_begin_def)
    from a b c l r 0 show ?thesis by (auto simp: indexed_loads_first)
  next
    case (Suc j)
    with Cons.prems have "j < length pages" by simp
    from Cons.IH [OF this] Suc show ?thesis by simp
  qed
qed

theorem indexed_loads_append_witness:
  "allTransactions (indexed_loads [second_page, short_page] after_first_page ! Suc 0) =
     allTransactions (indexed_loads [second_page, short_page] after_first_page ! 0) @ second_page \<and>
   allTransactions (indexed_loads [second_page, short_page] after_first_page ! Suc 1) =
     allTransactions (indexed_loads [second_page, short_page] after_first_page ! 1) @ short_page \<and>
   length (allTransactions (indexed_loads [second_page, short_page] after_first_page ! Suc 0)) \<le>
     length (allTransactions (indexed_loads [second_page, short_page] after_first_page ! 0))
       + pageSize"
proof -
  let ?tr = "indexed_loads [second_page, short_page] after_first_page"
  have l: "length ([second_page, short_page] ! 0) \<le> pageSize" by code_simp
  have g0: "\<not> isLoadingMore (?tr ! 0) \<and> hasMore (?tr ! 0)" by code_simp
  have g1: "\<not> isLoadingMore (?tr ! 1) \<and> hasMore (?tr ! 1)" by code_simp
  have i0: "0 < length [second_page, short_page]" and i1: "1 < length [second_page, short_page]"
    by simp_all
  from indexed_loads_append [OF i0, of after_first_page] g0
  have a0: "allTransactions (?tr ! Suc 0) = allTransactions (?tr ! 0) @ second_page"
    by auto
  from indexed_loads_append [OF i0, of after_first_page] l
  have b0: "length (allTransactions (?tr ! Suc 0)) \<le> length (allTransactions (?tr ! 0)) + pageSize"
    by blast
  from indexed_loads_append [OF i1, of after_first_page] g1
  have a1: "allTransactions (?tr ! Suc 1) = allTransactions (?tr ! 1) @ short_page"
    by auto
  from a0 a1 b0 show ?thesis by blast
qed

text \<open>
  Claim C4, as the spec words it, fails on a page longer than \<^verbatim>\<open>pageSize\<close>: the handler
  asks for 100 records and appends what arrives without cutting it, so a page of 101
  records makes the list grow from 100 to 201 records in one call.
\<close>

theorem long_indexed_page_counterexample:
  "length (allTransactions after_first_page) = 100 \<and>
   length (allTransactions
             (loadMoreWithGraphQL (\<lambda>q. FetchMoreResolved (Some long_page)) after_first_page)) = 201 \<and>
   \<not> length (allTransactions
               (loadMoreWithGraphQL (\<lambda>q. FetchMoreResolved (Some long_page)) after_first_page))
       \<le> length (allTransactions after_first_page) + pageSize \<and>
   snd (loadMoreWithGraphQL_begin after_first_page after_first_page) =
     Some (GraphQLRequest ''0xa'' 100 100)"
  by code_simp

text \<open>
  Claim C5. A rejected \<^verbatim>\<open>fetchMore\<close> switches the feed to the Rest backend: the next load
  more issues a REST request, and in every later run of events without a change of
  address the backend stays Rest and no GraphQL request is issued. Apart from the
  cursor, the feed is the one an empty page leaves.
\<close>

theorem indexed_failure_switches_to_rest:
  assumes "\<not> isLoadingMore s" and "hasMore s"
    and "fetchMore (GraphQLRequest (address s) pageSize ((currentPage s + 1) * pageSize)) =
           FetchMoreRejected"
    and "\<forall>e\<in>set es. \<not> is_AddressChanged e"
  shows "useRestAPI (loadMoreWithGraphQL fetchMore s) \<and>
         snd (loadMoreTransactions_begin (loadMoreWithGraphQL fetchMore s)
                (loadMoreWithGraphQL fetchMore s)) =
           Some (RestRequest (address s) (restStartVersion s)) \<and>
         useRestAPI (cells (fst (run es (shown (loadMoreWithGraphQL fetchMore s))))) \<and>
         (\<forall>q\<in>set (snd (run es (shown (loadMoreWithGraphQL fetchMore s)))).
            \<not> is_GraphQLRequest q) \<and>
         (loadMoreWithGraphQL fetchMore s)\<lparr>restStartVersion := c\<rparr> =
           (loadMoreWithGraphQL (\<lambda>q. FetchMoreResolved (Some [])) s)\<lparr>restStartVersion := c\<rparr>"
proof -
  let ?s' = "loadMoreWithGraphQL fetchMore s"
  from assms(1-3) have eq: "?s' = s\<lparr>useRestAPI := True, hasMore := True, isLoadingMore := False\<rparr>"
    by (simp add: loadMoreWithGraphQL_def loadMoreWithGraphQL_settle_def
        loadMoreWithGraphQL_begin_def)
  then have u: "useRestAPI ?s'" by simp
  then have uc: "useRestAPI (cells (shown ?s'))" and ur: "useRestAPI (rendered (shown ?s'))"
    by (simp_all add: shown_def)
  from eq have "snd (loadMoreTransactions_begin ?s' ?s') =
      Some (RestRequest (address s) (restStartVersion s))"
    by (simp add: begin_open)
  moreover note run_keeps_rest [OF uc ur assms(4)]
  moreover from assms(1,2) have "?s'\<lparr>restStartVersion := c\<rparr> =
           (loadMoreWithGraphQL (\<lambda>q. FetchMoreResolved (Some [])) s)\<lparr>restStartVersion := c\<rparr>"
    unfolding eq
    by (simp add: loadMoreWithGraphQL_def loadMoreWithGraphQL_settle_def
        loadMoreWithGraphQL_begin_def)
  ultimately show ?thesis using u by simp
qed

theorem indexed_failure_switches_to_rest_witness:
  "\<not> isLoadingMore after_first_page \<and> hasMore after_first_page \<and>
   useRestAPI (loadMoreWithGraphQL (\<lambda>q. FetchMoreRejected) after_first_page) \<and>
   snd (loadMoreTransactions_begin (loadMoreWithGraphQL (\<lambda>q. FetchMoreRejected) after_first_page)
          (loadMoreWithGraphQL (\<lambda>q. FetchMoreRejected) after_first_page)) =
     Some (RestRequest (address after_first_page) (restStartVersion after_first_page)) \<and>
   useRestAPI (cells (fst (run [LoadMoreClicked, LoadMoreClicked, Rendered,
                                RestSettled (Inr twelve), TryRestClicked,
                                QueryCompleted (Some first_page), Rendered, LoadMoreClicked]
                     (shown (loadMoreWithGraphQL (\<lambda>q. FetchMoreRejected) after_first_page)))))"
proof -
  have h1: "\<not> isLoadingMore after_first_page" and h2: "hasMore after_first_page"
    by code_simp+
  have h3: "(\<lambda>q. FetchMoreRejected)
      (GraphQLRequest (address after_first_page) pageSize
         ((currentPage after_first_page + 1) * pageSize)) = FetchMoreRejected" by simp
  have h4: "\<forall>e\<in>set [LoadMoreClicked, LoadMoreClicked, Rendered,
                                RestSettled (Inr twelve), TryRestClicked,
                                QueryCompleted (Some first_page), Rendered, LoadMoreClicked].
              \<not> is_AddressChanged e" by simp
  show ?thesis
    using h1 h2 indexed_failure_switches_to_rest [OF h1 h2 h3 h4]
    by blast
qed

text \<open>
  Claim C6. A Rest fetch that yields fewer than 1000 records (a transport failure yields
  none) appends them and sets \<^verbatim>\<open>hasMore\<close> to false; from then on every load more returns
  at its guard, with or without renders between the calls: no request, and the feed,
  its records included, stays as it is.
\<close>

theorem rest_short_page_exhausts:
  assumes "\<not> isLoadingMore s" and "hasMore s"
    and "getAccountTransactionsRest fetch (address s) (restStartVersion s) = Inr txs"
    and "length txs < 1000"
  shows "\<not> hasMore (loadMoreWithRest fetch s) \<and>
         allTransactions (loadMoreWithRest fetch s) =
           allTransactions s @ map formatTransaction txs \<and>
         loadMoreTransactions_begin (loadMoreWithRest fetch s) (loadMoreWithRest fetch s) =
           (loadMoreWithRest fetch s, None) \<and>
         loadMoreMany nets (loadMoreWithRest fetch s) = loadMoreWithRest fetch s \<and>
         run (replicate n LoadMoreClicked) (shown (loadMoreWithRest fetch s)) =
           (shown (loadMoreWithRest fetch s), []) \<and>
         ((\<forall>e\<in>set es. e = LoadMoreClicked \<or> e = Rendered) \<longrightarrow>
            run es (shown (loadMoreWithRest fetch s)) = (shown (loadMoreWithRest fetch s), []))"
proof -
  let ?s' = "loadMoreWithRest fetch s"
  from assms have h: "\<not> hasMore ?s'"
    by (simp add: loadMoreWithRest_def loadMoreWithRest_settle_def loadMoreWithRest_begin_def)
  from assms have a: "allTransactions ?s' = allTransactions s @ map formatTransaction txs"
    by (simp add: loadMoreWithRest_def loadMoreWithRest_settle_def loadMoreWithRest_begin_def)
  from h have b: "isLoadingMore ?s' \<or> \<not> hasMore ?s'" by simp
  have "run (replicate n LoadMoreClicked) (shown ?s') = (shown ?s', [])"
    by (rule run_blocked [OF b]) simp
  moreover have "(\<forall>e\<in>set es. e = LoadMoreClicked \<or> e = Rendered) \<longrightarrow>
      run es (shown ?s') = (shown ?s', [])"
    using run_blocked [OF b] by blast
  ultimately show ?thesis using h a
    by (simp add: begin_blocked loadMoreMany_blocked)
qed

theorem rest_short_page_exhausts_witness:
  "\<not> isLoadingMore failed_over \<and> hasMore failed_over \<and> length twelve < 1000 \<and>
   \<not> hasMore (loadMoreWithRest (\<lambda>q. Response 200 (JsonArray twelve)) failed_over) \<and>
   loadMoreTransactions_begin (loadMoreWithRest (\<lambda>q. Response 200 (JsonArray twelve)) failed_over)
       (loadMoreWithRest (\<lambda>q. Response 200 (JsonArray twelve)) failed_over) =
     (loadMoreWithRest (\<lambda>q. Response 200 (JsonArray twelve)) failed_over, None) \<and>
   run [LoadMoreClicked, Rendered, LoadMoreClicked]
       (shown (loadMoreWithRest (\<lambda>q. Response 200 (JsonArray twelve)) failed_over)) =
     (shown (loadMoreWithRest (\<lambda>q. Response 200 (JsonArray twelve)) failed_over), []) \<and>
   \<not> hasMore (loadMoreWithRest (\<lambda>q. FetchRejected) failed_over) \<and>
   allTransactions (loadMoreWithRest (\<lambda>q. FetchRejected) failed_over) =
     allTransactions failed_over @ map formatTransaction []"
proof -
  have h1: "\<not> isLoadingMore failed_over" and h2: "hasMore failed_over"
    by code_simp+
  have h3: "getAccountTransactionsRest (\<lambda>q. Response 200 (JsonArray twelve))
              (address failed_over) (restStartVersion failed_over) = Inr twelve"
    by (simp add: getAccountTransactionsRest_def ok_def)
  have h4: "length twelve < 1000" by code_simp
  have h5: "getAccountTransactionsRest (\<lambda>q. FetchRejected)
              (address failed_over) (restStartVersion failed_over) = Inr []"
    by (simp add: getAccountTransactionsRest_def)
  have h6: "length ([] :: rest_transaction list) < 1000" by simp
  have h7: "\<forall>e\<in>set [LoadMoreClicked, Rendered, LoadMoreClicked].
      e = LoadMoreClicked \<or> e = Rendered" by simp
  show ?thesis
    using h1 h2 h4 h7
      rest_short_page_exhausts [OF h1 h2 h3 h4,
        where es = "[LoadMoreClicked, Rendered, LoadMoreClicked]"]
      rest_short_page_exhausts [OF h1 h2 h5 h6]
    by blast
qed

text \<open>
  Claim C7. A change of the address empties the record list, sets the page counter to
  zero, restores the indexed backend, clears the Rest cursor and sets \<^verbatim>\<open>hasMore\<close> to true
  (the feed is not exhausted).
\<close>

theorem reset_clears_feed:
  "allTransactions (cells (fst (step (AddressChanged a) w))) = [] \<and>
   currentPage (cells (fst (step (AddressChanged a) w))) = 0 \<and>
   useRestAPI (cells (fst (step (AddressChanged a) w))) = False \<and>
   restStartVersion (cells (fst (step (AddressChanged a) w))) = None \<and>
   hasMore (cells (fst (step (AddressChanged a) w))) = True \<and>
   address (cells (fst (step (AddressChanged a) w))) = a \<and>
   snd (step (AddressChanged a) w) = None \<and>
   allTransactions (reset s) = [] \<and> currentPage (reset s) = 0 \<and> useRestAPI (reset s) = False \<and>
   restStartVersion (reset s) = None \<and> hasMore (reset s) = True"
  by (simp add: reset_def)

text \<open>
  Claim C8. A REST transaction becomes a record of the indexed shape: the version is
  copied, the kind is \<^verbatim>\<open>UserTransaction\<close> exactly when the node's type is
  \<^verbatim>\<open>user_transaction\<close>, and then \<^verbatim>\<open>user_transaction.sender\<close> is the sender of the payload;
  otherwise the kind is \<^verbatim>\<open>SystemTransaction\<close> and \<^verbatim>\<open>user_transaction\<close> is null. The records
  appended by a Rest fetch are these.
\<close>

theorem rest_normalization:
  "transaction_version (formatTransaction tx) = version tx \<and>
   (typename (formatTransaction tx) = ''UserTransaction'' \<longleftrightarrow> tx_type tx = ''user_transaction'') \<and>
   (tx_type tx = ''user_transaction'' \<longrightarrow>
      user_transaction (formatTransaction tx) = Some \<lparr>sender = tx_sender tx\<rparr>) \<and>
   (tx_type tx \<noteq> ''user_transaction'' \<longrightarrow>
      typename (formatTransaction tx) = ''SystemTransaction'' \<and>
      user_transaction (formatTransaction tx) = None) \<and>
   (txs \<noteq> [] \<longrightarrow>
      allTransactions (loadMoreWithRest_settle (Inr txs) s) =
        allTransactions s @ map formatTransaction txs)"
  by (simp add: formatTransaction_def loadMoreWithRest_settle_def)

theorem rest_normalization_witness:
  "formatTransaction (node_tx 7) = indexed_tx 7 \<and>
   formatTransaction block_tx =
     \<lparr>transaction_version = 8, typename = ''SystemTransaction'', user_transaction = None\<rparr> \<and>
   allTransactions (loadMoreWithRest_settle (Inr [node_tx 7, block_tx]) (initial ''0xa'')) =
     [formatTransaction (node_tx 7), formatTransaction block_tx]"
  using rest_normalization [of "node_tx 7" "[node_tx 7, block_tx]" "initial ''0xa''"]
    rest_normalization [of block_tx]
  by (simp add: node_tx_def indexed_tx_def block_tx_def formatTransaction_def initial_def)

text \<open>
  Claim C9. Once \<^verbatim>\<open>useRestAPI\<close> is true it stays true under every event but a change of
  address (a render, a load more call by the handler of any render, either fetch
  settling with any outcome, the first query completing, the fallback button), along
  every run of such events; a change of address sets it to false.
\<close>

theorem backend_switch_one_way:
  "(useRestAPI (cells w) \<and> \<not> is_AddressChanged e \<longrightarrow> useRestAPI (cells (fst (step e w)))) \<and>
   (useRestAPI (cells w) \<and> (\<forall>e\<in>set es. \<not> is_AddressChanged e) \<longrightarrow>
      useRestAPI (cells (fst (run es w)))) \<and>
   (useRestAPI s \<longrightarrow> useRestAPI (loadMoreTransactions fetchMore fetch s)) \<and>
   \<not> useRestAPI (cells (fst (step (AddressChanged a) w)))"
  using step_keeps_cells_rest [of w e] run_keeps_cells_rest [of w es]
    loadMoreTransactions_keeps_rest [of s fetchMore fetch]
  by (simp add: reset_def)

theorem backend_switch_one_way_witness:
  "useRestAPI failed_over \<and>
   useRestAPI (cells (fst (step (FetchMoreSettled first_page (FetchMoreResolved (Some second_page)))
                     (shown failed_over)))) \<and>
   useRestAPI (cells (fst (run [LoadMoreClicked, RestSettled (Inr twelve), Rendered,
                         QueryCompleted (Some first_page), LoadMoreClicked]
                     \<lparr>rendered = after_first_page, cells = failed_over\<rparr>))) \<and>
   useRestAPI (loadMoreTransactions (\<lambda>q. FetchMoreResolved (Some second_page))
                 (\<lambda>q. FetchRejected) failed_over) \<and>
   \<not> useRestAPI (cells (fst (step (AddressChanged ''0xb'') (shown failed_over))))"
proof -
  have h: "useRestAPI failed_over" by code_simp
  show ?thesis
    using h
      backend_switch_one_way [of "shown failed_over"
        "FetchMoreSettled first_page (FetchMoreResolved (Some second_page))"
        "[]" failed_over
        "\<lambda>q. FetchMoreResolved (Some second_page)" "\<lambda>q. FetchRejected" "''0xb''"]
      backend_switch_one_way [of "\<lparr>rendered = after_first_page, cells = failed_over\<rparr>"
        Rendered
        "[LoadMoreClicked, RestSettled (Inr twelve), Rendered, QueryCompleted (Some first_page),
          LoadMoreClicked]"]
    by (simp add: shown_def)
qed

text \<open>
  Claim C10. \<^verbatim>\<open>getAccountTransactionsRest\<close> fulfils with an array for every address,
  cursor and network outcome: a rejected \<^verbatim>\<open>fetch\<close>, a status outside 200-299, a body that
  is not JSON and a body that is not an array all give the empty array, as an empty page
  does; an array that arrives with a 2xx status is returned as it is.
\<close>

theorem rest_fetcher_total:
  "(\<exists>txs. getAccountTransactionsRest fetch a start = Inr txs) \<and>
   (fetch (rest_request a start) = FetchRejected \<longrightarrow>
      getAccountTransactionsRest fetch a start = Inr []) \<and>
   (\<forall>status body. fetch (rest_request a start) = Response status body \<and> \<not> ok status \<longrightarrow>
      getAccountTransactionsRest fetch a start = Inr []) \<and>
   (\<forall>status. fetch (rest_request a start) = Response status InvalidJson \<longrightarrow>
      getAccountTransactionsRest fetch a start = Inr []) \<and>
   (\<forall>status. fetch (rest_request a start) = Response status NotAnArray \<longrightarrow>
      getAccountTransactionsRest fetch a start = Inr []) \<and>
   (\<forall>status txs. fetch (rest_request a start) = Response status (JsonArray txs) \<and> ok status \<longrightarrow>
      getAccountTransactionsRest fetch a start = Inr txs)"
proof -
  have "\<exists>txs. getAccountTransactionsRest fetch a start = Inr txs"
    by (cases "rest_try_body (fetch (rest_request a start))")
      (simp_all add: getAccountTransactionsRest_def)
  then show ?thesis
    by (auto simp: getAccountTransactionsRest_def)
qed

theorem rest_fetcher_total_witness:
  "getAccountTransactionsRest (\<lambda>q. FetchRejected) ''0xa'' None = Inr [] \<and>
   getAccountTransactionsRest (\<lambda>q. Response 503 NotAnArray) ''0xa'' (Some 5) = Inr [] \<and>
   getAccountTransactionsRest (\<lambda>q. Response 200 InvalidJson) ''0xa'' (Some 5) = Inr [] \<and>
   getAccountTransactionsRest (\<lambda>q. Response 200 NotAnArray) ''0xa'' (Some 5) = Inr [] \<and>
   getAccountTransactionsRest (\<lambda>q. Response 200 (JsonArray [])) ''0xa'' (Some 5) = Inr [] \<and>
   getAccountTransactionsRest (\<lambda>q. Response 200 (JsonArray twelve)) ''0xa'' (Some 5) = Inr twelve"
  using rest_fetcher_total [of "\<lambda>q. FetchRejected" "''0xa''" None]
    rest_fetcher_total [of "\<lambda>q. Response 503 NotAnArray" "''0xa''" "Some 5"]
    rest_fetcher_total [of "\<lambda>q. Response 200 InvalidJson" "''0xa''" "Some 5"]
    rest_fetcher_total [of "\<lambda>q. Response 200 NotAnArray" "''0xa''" "Some 5"]
    rest_fetcher_total [of "\<lambda>q. Response 200 (JsonArray [])" "''0xa''" "Some 5"]
    rest_fetcher_total [of "\<lambda>q. Response 200 (JsonArray twelve)" "''0xa''" "Some 5"]
  by (simp add: ok_def)

end
